theory Spec2Isabelle
  imports Main
begin

section \<open>Data model (src/core/database.py, src/core/backup_engine.py)\<close>

text \<open>
  Paths and file contents are strings; clock readings (\<^verbatim>\<open>datetime.utcnow()\<close>) are
  integers counting microseconds. File counts and byte counts are natural numbers (the
  columns are \<^verbatim>\<open>Integer\<close> and \<^verbatim>\<open>Float\<close>, the engine only ever stores lengths and
  sums of \<^verbatim>\<open>st_size\<close> in them).
\<close>

type_synonym path = string
type_synonym datetime = int

text \<open>
  The \<^verbatim>\<open>status\<close> column of \<^verbatim>\<open>job_executions\<close>: pending, running, paused, completed,
  completed_with_errors, failed, cancelled.
\<close>

datatype exec_status =
  Pending | Running | Paused | Completed | Completed_with_errors | Failed | Cancelled

text \<open>
  The \<^verbatim>\<open>status\<close> column of \<^verbatim>\<open>file_transfers\<close>: pending, in_progress, completed, failed,
  skipped.
\<close>

datatype transfer_status =
  T_pending | T_in_progress | T_completed | T_failed | T_skipped

record BackupJob =
  job_ident :: nat
  job_name :: string
  sources :: "path list"
  include_patterns :: "string option"
  exclude_patterns :: "string option"
  target_type :: string
  target_config :: "(string \<times> string) list"
  conflict_policy :: string

record JobExecution =
  exec_id :: nat
  job_id :: nat
  status :: exec_status
  started_at :: datetime
  completed_at :: "datetime option"
  total_files :: nat
  processed_files :: nat
  failed_files :: nat
  total_size :: nat
  transferred_size :: nat
  error_message :: "string option"

record FileTransfer =
  execution_id :: nat
  source_path :: path
  target_path :: path
  file_size :: nat
  checksum :: "string option"
  transfer_status :: transfer_status
  transferred_bytes :: nat
  transfer_error :: "string option"

record TransferItem =
  item_source_path :: path
  item_target_path :: path
  item_file_size :: nat

section \<open>JobExecution.get_progress_percentage\<close>

text \<open>
  \<^verbatim>\<open>
  if self.total_files == 0:
      return 0
  return min(100, int((self.processed_files / self.total_files) * 100))
  \<close>
  The quotient is a floating-point number. The function takes the value of
  \<^verbatim>\<open>int((processed / total) * 100)\<close> from the parameter \<open>float_pct\<close>, so that nothing
  is assumed about the rounding.
\<close>

definition get_progress_percentage :: "(nat \<Rightarrow> nat \<Rightarrow> int) \<Rightarrow> JobExecution \<Rightarrow> int" where
  "get_progress_percentage float_pct e =
     (if total_files e = 0 then 0
      else min 100 (float_pct (processed_files e) (total_files e)))"

text \<open>The same expression in exact arithmetic: a sample instance of the parameter.\<close>

definition exact_pct :: "nat \<Rightarrow> nat \<Rightarrow> int" where
  "exact_pct p t = int ((p * 100) div t)"

section \<open>Include and exclude filters (BackupWorker._should_include_file)\<close>

text \<open>\<^verbatim>\<open>os.path.basename\<close> on POSIX: what follows the last slash.\<close>

definition basename :: "path \<Rightarrow> string" where
  "basename p = rev (takeWhile (\<lambda>c. c \<noteq> CHR ''/'') (rev p))"

text \<open>
  A character is a code point below 256. \<^verbatim>\<open>str.isspace\<close> holds of the code points 9 to 13,
  28 to 32, 133 (U+0085) and 160 (U+00A0) among them; \<^verbatim>\<open>str.strip()\<close> removes them at both
  ends.
\<close>

definition is_space :: "char \<Rightarrow> bool" where
  "is_space c = ((of_char c :: nat) \<in> {9, 10, 11, 12, 13, 28, 29, 30, 31, 32, 133, 160})"

definition strip :: "string \<Rightarrow> string" where
  "strip s = rev (dropWhile is_space (rev (dropWhile is_space s)))"

text \<open>
  One \<^verbatim>\<open>for pattern in patterns\<close> loop of the source, which returns at the first pattern
  that is not blank once stripped and that \<^verbatim>\<open>fnmatch.fnmatch\<close> accepts for the basename
  or for the full path. The result says whether the loop returned early.
  \<^verbatim>\<open>fnmatch.fnmatch(name, pattern)\<close> is a library function: the parameter \<open>fnm\<close>.
\<close>

fun pattern_loop :: "(string \<Rightarrow> string \<Rightarrow> bool) \<Rightarrow> string \<Rightarrow> path \<Rightarrow> string list \<Rightarrow> bool" where
  "pattern_loop fnm file_name file_path [] = False"
| "pattern_loop fnm file_name file_path (pattern # patterns) =
     (let pattern' = strip pattern in
      if pattern' \<noteq> [] \<and> (fnm file_name pattern' \<or> fnm file_path pattern') then True
      else pattern_loop fnm file_name file_path patterns)"

definition should_include_file ::
  "(string \<Rightarrow> string \<Rightarrow> bool) \<Rightarrow> path \<Rightarrow> string list \<Rightarrow> string list \<Rightarrow> bool" where
  "should_include_file fnm file_path include_pats exclude_pats =
     (let file_name = basename file_path in
      if exclude_pats \<noteq> [] \<and> pattern_loop fnm file_name file_path exclude_pats then False
      else if include_pats \<noteq> [] then pattern_loop fnm file_name file_path include_pats
      else True)"

text \<open>
  When a file matches a pattern, as the scanner tests it: the pattern is stripped of
  surrounding whitespace, a blank pattern matches nothing, and the match is by basename
  or by full path.
\<close>

definition matches_pattern :: "(string \<Rightarrow> string \<Rightarrow> bool) \<Rightarrow> path \<Rightarrow> string \<Rightarrow> bool" where
  "matches_pattern fnm file_path pattern =
     (strip pattern \<noteq> [] \<and>
      (fnm (basename file_path) (strip pattern) \<or> fnm file_path (strip pattern)))"

text \<open>
  The \<^verbatim>\<open>*\<close> and \<^verbatim>\<open>?\<close> wildcards of \<^verbatim>\<open>fnmatch.fnmatch\<close> on POSIX (no character classes):
  a sample instance of the parameter \<open>fnm\<close>. The first argument of \<open>glob\<close> is the pattern.
\<close>

fun glob :: "string \<Rightarrow> string \<Rightarrow> bool" where
  "glob [] s = (s = [])"
| "glob (p # ps) [] = (p = CHR ''*'' \<and> glob ps [])"
| "glob (p # ps) (c # cs) =
     (if p = CHR ''*'' then glob ps (c # cs) \<or> glob (p # ps) cs
      else (p = CHR ''?'' \<or> p = c) \<and> glob ps cs)"

definition fnmatch_wild :: "string \<Rightarrow> string \<Rightarrow> bool" where
  "fnmatch_wild name pat = glob pat name"

section \<open>Paths (pathlib, os.path)\<close>

text \<open>
  Paths are POSIX strings in normal form (no doubled or trailing slash), and a
  destination path never names a directory. \<open>path_join\<close> is \<^verbatim>\<open>os.path.join\<close> and the
  \<^verbatim>\<open>/\<close> operator of pathlib; \<open>parent\<close>, \<open>suffix_of\<close> and \<open>stem_of\<close> are \<^verbatim>\<open>Path.parent\<close>,
  \<^verbatim>\<open>Path.suffix\<close> and \<^verbatim>\<open>Path.stem\<close> (the last two take the final component):
  \<^verbatim>\<open>
  i = name.rfind('.')
  if 0 < i < len(name) - 1: return name[i:]     # suffix
  else: return ''
  \<close>
\<close>

definition path_join :: "path \<Rightarrow> string \<Rightarrow> path" where
  "path_join a b =
     (if b \<noteq> [] \<and> hd b = CHR ''/'' then b
      else if a = [] \<or> last a = CHR ''/'' then a @ b
      else a @ ''/'' @ b)"

definition parent :: "path \<Rightarrow> path" where
  "parent p =
     (let d = rev (drop 1 (dropWhile (\<lambda>c. c \<noteq> CHR ''/'') (rev p))) in
      if d = [] \<and> p \<noteq> [] \<and> hd p = CHR ''/'' then ''/'' else d)"

definition suffix_of :: "string \<Rightarrow> string" where
  "suffix_of name =
     (let ext = rev (takeWhile (\<lambda>c. c \<noteq> CHR ''.'') (rev name)) in
      if CHR ''.'' \<in> set name \<and> ext \<noteq> [] \<and> Suc (length ext) < length name
      then CHR ''.'' # ext else [])"

definition stem_of :: "string \<Rightarrow> string" where
  "stem_of name = take (length name - length (suffix_of name)) name"

text \<open>\<^verbatim>\<open>str(counter)\<close>: the decimal digits of a natural number.\<close>

definition digit :: "nat \<Rightarrow> char" where
  "digit d = char_of (48 + d)"

fun str_nat :: "nat \<Rightarrow> string" where
  "str_nat n = (if n < 10 then [digit n] else str_nat (n div 10) @ [digit (n mod 10)])"

declare str_nat.simps [simp del]

text \<open>\<^verbatim>\<open>int(text)\<close> on a string of decimal digits.\<close>

definition int_of_str :: "string \<Rightarrow> nat" where
  "int_of_str text = foldl (\<lambda>a c. 10 * a + (of_char c - 48)) 0 text"

text \<open>The candidate name of a collision: \<^verbatim>\<open>f"{stem}_{counter}{suffix}"\<close> beside the target.\<close>

definition renamed :: "path \<Rightarrow> string \<Rightarrow> string \<Rightarrow> nat \<Rightarrow> path" where
  "renamed target stem suffix counter =
     path_join (parent target) (stem @ ''_'' @ str_nat counter @ suffix)"

section \<open>The environment and the state of a run\<close>

text \<open>
  What the code takes from libraries and from the outside:
  \<^item> \<open>fnmatch\<close>: \<^verbatim>\<open>fnmatch.fnmatch(name, pattern)\<close>;
  \<^item> \<open>sha256\<close>: the hex digest of a file content;
  \<^item> \<open>copy2\<close>: what \<^verbatim>\<open>shutil.copy2\<close> writes at its destination, given the source path and
    its content (\<open>None\<close>: it raises); a faithful copy is \<open>\<lambda>p c. Some c\<close>, any other value
    is a corrupted copy;
  \<^item> \<open>walk\<close>: the \<^verbatim>\<open>(root, files)\<close> entries of \<^verbatim>\<open>os.walk\<close> on a directory (\<open>None\<close>: not a
    directory);
  \<^item> \<open>refused\<close>: the paths whose \<^verbatim>\<open>stat\<close> is refused: on them \<^verbatim>\<open>Path.is_file()\<close>,
    \<^verbatim>\<open>Path.exists()\<close> and \<^verbatim>\<open>Path.stat()\<close> raise \<^verbatim>\<open>PermissionError\<close>, and a copy fails;
  \<^item> \<open>stop_at\<close>: the flag \<^verbatim>\<open>should_stop\<close> is set by \<^verbatim>\<open>stop()\<close> and never cleared; the worker
    reads the flags at numbered observation points, and \<open>stop_at = Some k\<close> says the flag is
    set from observation \<open>k\<close> on;
  \<^item> \<open>is_paused_at\<close>: the flag \<^verbatim>\<open>is_paused\<close> at each observation;
  \<^item> \<open>utcnow\<close>: the clock.
\<close>

record env =
  fnmatch :: "string \<Rightarrow> string \<Rightarrow> bool"
  sha256 :: "string \<Rightarrow> string"
  copy2 :: "path \<Rightarrow> string \<Rightarrow> string option"
  walk :: "path \<Rightarrow> (path \<times> string list) list option"
  refused :: "path \<Rightarrow> bool"
  stop_at :: "nat option"
  is_paused_at :: "nat \<Rightarrow> bool"
  utcnow :: datetime

text \<open>
  The state: the three tables, the regular files with their contents, the signals emitted
  so far (\<^verbatim>\<open>progress_updated\<close>, \<^verbatim>\<open>backup_completed\<close>), the number of flag observations
  made, and \<open>planned\<close>, the value of the local variable \<^verbatim>\<open>transfer_items\<close> of the latest
  run (empty until the run reaches its planning step). Log messages are not kept.
\<close>

record world =
  jobs :: "BackupJob list"
  executions :: "JobExecution list"
  file_transfers :: "FileTransfer list"
  files :: "path \<Rightarrow> string option"
  progress_updated :: "(nat \<times> nat \<times> string) list"
  backup_completed :: "(bool \<times> string) list"
  observed :: nat
  planned :: "TransferItem list"

datatype error = KeyError string | PermissionError path

text \<open>
  How a call of the worker ends: it returns, or it waits for ever for the mutex that it
  holds itself (\<^verbatim>\<open>QMutex\<close> is not recursive). In both cases the state is the one that was
  committed last.
\<close>

datatype outcome = Returned world | Deadlocked world

definition final_world :: "outcome \<Rightarrow> world" where
  "final_world out = (case out of Returned s \<Rightarrow> s | Deadlocked s \<Rightarrow> s)"

text \<open>The state in which a run returned (\<open>None\<close>: it did not return).\<close>

definition returned :: "outcome option \<Rightarrow> world option" where
  "returned r = (case r of Some (Returned s) \<Rightarrow> Some s | _ \<Rightarrow> None)"

section \<open>The ledger (src/core/database.py)\<close>

definition get_execution :: "world \<Rightarrow> nat \<Rightarrow> JobExecution option" where
  "get_execution s i = find (\<lambda>e. exec_id e = i) (executions s)"

text \<open>The primary key of an inserted row: one more than the largest in the table.\<close>

definition next_exec_id :: "world \<Rightarrow> nat" where
  "next_exec_id s = Suc (foldr max (map exec_id (executions s)) 0)"

text \<open>\<^verbatim>\<open>session.commit()\<close> with a new or modified execution object: insert or update by key.\<close>

definition commit_execution :: "JobExecution \<Rightarrow> world \<Rightarrow> world" where
  "commit_execution e s =
     s\<lparr>executions :=
        (if list_ex (\<lambda>x. exec_id x = exec_id e) (executions s)
         then map (\<lambda>x. if exec_id x = exec_id e then e else x) (executions s)
         else executions s @ [e])\<rparr>"

text \<open>
  \<^verbatim>\<open>
  cutoff_date = datetime.utcnow() - timedelta(days=days_to_keep)
  old_executions = session.query(JobExecution).filter(
      JobExecution.completed_at < cutoff_date,
      JobExecution.status.in_(['completed', 'failed', 'cancelled'])).all()
  for execution in old_executions:
      session.delete(execution)
  session.commit()
  return len(old_executions)
  \<close>
  A comparison with a NULL \<^verbatim>\<open>completed_at\<close> is not true in SQL. Deleting an execution
  deletes its transfers (\<^verbatim>\<open>cascade="all, delete-orphan"\<close> on \<^verbatim>\<open>file_transfers\<close>).
\<close>

definition cutoff_date :: "datetime \<Rightarrow> int \<Rightarrow> datetime" where
  "cutoff_date now days_to_keep = now - days_to_keep * 86400000000"

definition old_executions :: "datetime \<Rightarrow> int \<Rightarrow> world \<Rightarrow> JobExecution list" where
  "old_executions now days_to_keep s =
     filter (\<lambda>e. (case completed_at e of None \<Rightarrow> False
                               | Some t \<Rightarrow> t < cutoff_date now days_to_keep) \<and>
                  status e \<in> set [Completed, Failed, Cancelled])
       (executions s)"

definition cleanup_old_executions :: "datetime \<Rightarrow> int \<Rightarrow> world \<Rightarrow> nat \<times> world" where
  "cleanup_old_executions now days_to_keep s =
     (let old = old_executions now days_to_keep s;
          old_ids = map exec_id old in
      (length old,
       s\<lparr>executions := filter (\<lambda>e. exec_id e \<notin> set old_ids) (executions s),
         file_transfers :=
           filter (\<lambda>t. execution_id t \<notin> set old_ids) (file_transfers s)\<rparr>))"

text \<open>The terminal statuses, as the specification lists them.\<close>

definition terminal :: "exec_status \<Rightarrow> bool" where
  "terminal st = (st \<in> set [Completed, Completed_with_errors, Failed, Cancelled])"

section \<open>Pause and stop (BackupWorker._check_pause_stop, _handle_pause_or_stop)\<close>

definition should_stop :: "env \<Rightarrow> nat \<Rightarrow> bool" where
  "should_stop ev n = (case stop_at ev of None \<Rightarrow> False | Some k \<Rightarrow> k \<le> n)"

text \<open>
  \<^verbatim>\<open>_check_pause_stop\<close> waits while the worker is paused and returns \<^verbatim>\<open>should_stop\<close>: one
  observation of the flag, made when the wait is over. Every wait is taken to end, by a
  resume or by a stop.
\<close>

definition check_pause_stop :: "env \<Rightarrow> world \<Rightarrow> bool \<times> world" where
  "check_pause_stop ev s = (should_stop ev (observed s), s\<lparr>observed := Suc (observed s)\<rparr>)"

definition emit_completed :: "bool \<Rightarrow> string \<Rightarrow> world \<Rightarrow> world" where
  "emit_completed ok msg s = s\<lparr>backup_completed := backup_completed s @ [(ok, msg)]\<rparr>"

definition handle_pause_or_stop :: "env \<Rightarrow> JobExecution \<Rightarrow> world \<Rightarrow> world" where
  "handle_pause_or_stop ev execution s =
     (if should_stop ev (observed s) then
        emit_completed False ''Cancelled by user''
          (commit_execution
             (execution\<lparr>status := Cancelled, completed_at := Some (utcnow ev)\<rparr>) s)
      else if is_paused_at ev (observed s) then
        emit_completed True ''Backup paused''
          (commit_execution (execution\<lparr>status := Paused\<rparr>) s)
      else s)"

section \<open>Scanning (BackupWorker._scan_sources)\<close>

text \<open>\<^verbatim>\<open>s.split(';')\<close>, and \<^verbatim>\<open>job.include_patterns.split(';') if job.include_patterns else []\<close>.\<close>

fun split_on :: "char \<Rightarrow> string \<Rightarrow> string list" where
  "split_on d [] = [[]]"
| "split_on d (c # cs) =
     (if c = d then [] # split_on d cs
      else (case split_on d cs of [] \<Rightarrow> [[c]] | w # ws \<Rightarrow> (c # w) # ws))"

definition patterns_of :: "string option \<Rightarrow> string list" where
  "patterns_of column =
     (case column of None \<Rightarrow> [] | Some text \<Rightarrow> if text = [] then [] else split_on CHR '';'' text)"

text \<open>The loop \<^verbatim>\<open>for file in files\<close> over the files of one directory of the walk.\<close>

fun scan_files :: "env \<Rightarrow> string list \<Rightarrow> string list \<Rightarrow> path \<Rightarrow> string list \<Rightarrow> path list" where
  "scan_files ev inc exc root [] = []"
| "scan_files ev inc exc root (file # rest) =
     (let file_path = path_join root file in
      (if should_include_file (fnmatch ev) file_path inc exc then [file_path] else [])
      @ scan_files ev inc exc root rest)"

text \<open>The loop over \<^verbatim>\<open>os.walk(source_path)\<close>, left at a stop request.\<close>

fun scan_walk ::
  "env \<Rightarrow> string list \<Rightarrow> string list \<Rightarrow> (path \<times> string list) list \<Rightarrow> world \<Rightarrow> path list \<times> world" where
  "scan_walk ev inc exc [] s = ([], s)"
| "scan_walk ev inc exc ((root, names) # entries) s =
     (case check_pause_stop ev s of
        (True, s1) \<Rightarrow> ([], s1)
      | (False, s1) \<Rightarrow>
          (case scan_walk ev inc exc entries s1 of
             (found, s2) \<Rightarrow> (scan_files ev inc exc root names @ found, s2)))"

text \<open>
  The body of the loop over the sources: a regular file is tested by the filters, a
  directory is walked, anything else is skipped. \<^verbatim>\<open>source_path.is_file()\<close> raises on a path
  whose \<^verbatim>\<open>stat\<close> is refused, and nothing in the scan catches it.
\<close>

definition scan_source ::
  "env \<Rightarrow> string list \<Rightarrow> string list \<Rightarrow> path \<Rightarrow> world \<Rightarrow> error + path list \<times> world" where
  "scan_source ev inc exc source s =
     (if refused ev source then Inl (PermissionError source)
      else if files s source \<noteq> None then
        Inr (if should_include_file (fnmatch ev) source inc exc then [source] else [], s)
      else (case walk ev source of
              Some entries \<Rightarrow> Inr (scan_walk ev inc exc entries s)
            | None \<Rightarrow> Inr ([], s)))"

text \<open>The loop \<^verbatim>\<open>for source in sources\<close>, left at a stop request or by an exception.\<close>

fun scan_loop ::
  "env \<Rightarrow> string list \<Rightarrow> string list \<Rightarrow> path list \<Rightarrow> world \<Rightarrow> error + path list \<times> world" where
  "scan_loop ev inc exc [] s = Inr ([], s)"
| "scan_loop ev inc exc (source # rest) s =
     (case check_pause_stop ev s of
        (True, s1) \<Rightarrow> Inr ([], s1)
      | (False, s1) \<Rightarrow>
          (case scan_source ev inc exc source s1 of
             Inl err \<Rightarrow> Inl err
           | Inr (found, s2) \<Rightarrow>
               (case scan_loop ev inc exc rest s2 of
                  Inl err \<Rightarrow> Inl err
                | Inr (later, s3) \<Rightarrow> Inr (found @ later, s3))))"

definition scan_sources :: "env \<Rightarrow> BackupJob \<Rightarrow> world \<Rightarrow> error + path list \<times> world" where
  "scan_sources ev job s =
     scan_loop ev (patterns_of (include_patterns job)) (patterns_of (exclude_patterns job))
       (sources job) s"


section \<open>Planning (BackupWorker._plan_transfers)\<close>

text \<open>
  \<^verbatim>\<open>
  while target_path.exists():
      target_path = target_path.parent / f"{stem}_{counter}{suffix}"
      counter += 1
  \<close>
  The loop has no bound: where it never ends the value is \<open>None\<close>. \<^verbatim>\<open>exists()\<close> raises on
  a path whose \<^verbatim>\<open>stat\<close> is refused.
\<close>

partial_function (option) plan_rename_loop ::
  "(path \<Rightarrow> bool) \<Rightarrow> (path \<Rightarrow> bool) \<Rightarrow> string \<Rightarrow> string \<Rightarrow> path \<Rightarrow> nat \<Rightarrow> (error + path) option" where
  "plan_rename_loop refused_at exists_at stem suffix target counter =
     (if refused_at target then Some (Inl (PermissionError target))
      else if exists_at target
      then plan_rename_loop refused_at exists_at stem suffix
             (renamed target stem suffix counter) (Suc counter)
      else Some (Inr target))"

declare plan_rename_loop.simps [code]

text \<open>
  The destination of one source file: destination root / job name / basename, renamed
  under the policy \<^verbatim>\<open>rename\<close> when the path exists
  (\<^verbatim>\<open>if job.conflict_policy == "rename" and target_path.exists()\<close>: the existence is tested
  only under that policy).
\<close>

definition plan_target :: "env \<Rightarrow> BackupJob \<Rightarrow> path \<Rightarrow> path \<Rightarrow> world \<Rightarrow> (error + path) option" where
  "plan_target ev job base_target source_file s =
     (let target = path_join (path_join base_target (job_name job)) (basename source_file) in
      if conflict_policy job = ''rename'' then
        (if refused ev target then Some (Inl (PermissionError target))
         else if files s target \<noteq> None then
           plan_rename_loop (refused ev) (\<lambda>p. files s p \<noteq> None)
             (stem_of (basename target)) (suffix_of (basename target)) target 1
         else Some (Inr target))
      else Some (Inr target))"

text \<open>
  The item of a source file: none when \<^verbatim>\<open>source_path.stat()\<close> raises \<^verbatim>\<open>OSError\<close> (the file is
  missing or its \<^verbatim>\<open>stat\<close> is refused), which the loop catches.
\<close>

definition plan_item :: "env \<Rightarrow> world \<Rightarrow> path \<Rightarrow> path \<Rightarrow> TransferItem list" where
  "plan_item ev s source_file target =
     (if refused ev source_file then []
      else (case files s source_file of
              None \<Rightarrow> []
            | Some content \<Rightarrow>
                [\<lparr>item_source_path = source_file, item_target_path = target,
                  item_file_size = length content\<rparr>]))"

text \<open>
  The loop \<^verbatim>\<open>for source_file in source_files\<close>, left at a stop request or by an exception
  of \<^verbatim>\<open>exists()\<close>.
\<close>

fun plan_loop ::
  "env \<Rightarrow> BackupJob \<Rightarrow> path \<Rightarrow> path list \<Rightarrow> world \<Rightarrow>
     (error + TransferItem list \<times> world) option" where
  "plan_loop ev job base_target [] s = Some (Inr ([], s))"
| "plan_loop ev job base_target (source_file # rest) s =
     (case check_pause_stop ev s of
        (True, s1) \<Rightarrow> Some (Inr ([], s1))
      | (False, s1) \<Rightarrow>
          (case plan_target ev job base_target source_file s1 of
             None \<Rightarrow> None
           | Some (Inl err) \<Rightarrow> Some (Inl err)
           | Some (Inr target) \<Rightarrow>
               (case plan_loop ev job base_target rest s1 of
                  None \<Rightarrow> None
                | Some (Inl err) \<Rightarrow> Some (Inl err)
                | Some (Inr (items, s2)) \<Rightarrow>
                    Some (Inr (plan_item ev s1 source_file target @ items, s2)))))"

text \<open>
  \<^verbatim>\<open>target_config["local_path"]\<close> raises \<^verbatim>\<open>KeyError\<close> when the key is missing; a job whose
  target type is not \<^verbatim>\<open>local\<close> has an empty plan.
\<close>

definition plan_transfers ::
  "env \<Rightarrow> BackupJob \<Rightarrow> path list \<Rightarrow> world \<Rightarrow> (error + TransferItem list \<times> world) option" where
  "plan_transfers ev job source_files s =
     (if target_type job = ''local'' then
        (case map_of (target_config job) ''local_path'' of
           None \<Rightarrow> Some (Inl (KeyError ''local_path''))
         | Some base_target \<Rightarrow> plan_loop ev job base_target source_files s)
      else Some (Inr ([], s)))"

section \<open>One transfer (BackupWorker._execute_local_transfer, _calculate_checksum)\<close>

text \<open>\<^verbatim>\<open>_calculate_checksum\<close> returns the empty string when the file cannot be read.\<close>

definition calculate_checksum :: "env \<Rightarrow> world \<Rightarrow> path \<Rightarrow> string" where
  "calculate_checksum ev s p =
     (if refused ev p then []
      else (case files s p of None \<Rightarrow> [] | Some content \<Rightarrow> sha256 ev content))"

definition temp_target_of :: "path \<Rightarrow> path" where
  "temp_target_of target = path_join (parent target) (basename target @ ''.tmp'')"

definition completed_before :: "world \<Rightarrow> nat \<Rightarrow> path \<Rightarrow> bool" where
  "completed_before s eid source =
     list_ex (\<lambda>t. execution_id t = eid \<and> source_path t = source \<and> transfer_status t = T_completed)
       (file_transfers s)"

definition add_transfer :: "FileTransfer \<Rightarrow> world \<Rightarrow> world" where
  "add_transfer t s = s\<lparr>file_transfers := file_transfers s @ [t]\<rparr>"

text \<open>
  The transfer record is inserted as \<^verbatim>\<open>in_progress\<close> and updated before the function
  returns: the state after the call holds its final value. An exception of \<^verbatim>\<open>copy2\<close> (the
  source is missing or its \<^verbatim>\<open>stat\<close> is refused, source and destination are the same file,
  or the copy fails) is caught by the handler, which marks the record \<^verbatim>\<open>failed\<close>.
  \<^verbatim>\<open>Path.rename\<close> replaces an existing destination (POSIX). The policy of the job is not an
  argument of this function.
\<close>

definition execute_local_transfer :: "env \<Rightarrow> TransferItem \<Rightarrow> nat \<Rightarrow> world \<Rightarrow> bool \<times> world" where
  "execute_local_transfer ev item eid s =
     (if completed_before s eid (item_source_path item) then (True, s)
      else
        let transfer_record =
              \<lparr>execution_id = eid, source_path = item_source_path item,
               target_path = item_target_path item, file_size = item_file_size item,
               checksum = None, transfer_status = T_in_progress, transferred_bytes = 0,
               transfer_error = None\<rparr>;
            target = item_target_path item;
            temp_target = temp_target_of target
        in
          (case (case files s (item_source_path item) of
                   None \<Rightarrow> None
                 | Some content \<Rightarrow>
                     if refused ev (item_source_path item) \<or>
                        temp_target = item_source_path item then None
                     else copy2 ev (item_source_path item) content) of
             None \<Rightarrow>
               (False,
                add_transfer
                  (transfer_record\<lparr>transfer_status := T_failed,
                     transfer_error := Some ''copy failed''\<rparr>) s)
           | Some written \<Rightarrow>
               let s1 = s\<lparr>files := (files s)(temp_target \<mapsto> written)\<rparr>;
                   source_checksum = calculate_checksum ev s1 (item_source_path item);
                   target_checksum = calculate_checksum ev s1 temp_target
               in
                 if source_checksum \<noteq> [] \<and> source_checksum = target_checksum then
                   (True,
                    add_transfer
                      (transfer_record\<lparr>transfer_status := T_completed,
                         checksum := Some source_checksum,
                         transferred_bytes := item_file_size item\<rparr>)
                      (s1\<lparr>files := (files s1)(temp_target := None, target \<mapsto> written)\<rparr>))
                 else
                   (False,
                    add_transfer
                      (transfer_record\<lparr>transfer_status := T_failed,
                         transfer_error := Some ''Checksum verification failed''\<rparr>)
                      (s1\<lparr>files := (files s1)(temp_target := None)\<rparr>))))"

section \<open>The run (BackupWorker._execute_backup)\<close>

text \<open>
  The end of a run whose loop was not left:
  \<^verbatim>\<open>
  if not self.should_stop and not self.is_paused:
      execution.status = 'completed' if failed_transfers == 0 else 'completed_with_errors'
      ...
      self.progress_updated.emit(execution.total_files, execution.total_files, "Backup completed")
      self.backup_completed.emit(True, status_msg)
  else:
      self._handle_pause_or_stop(execution, session)
  \<close>
  The whole statement runs under \<^verbatim>\<open>with QMutexLocker(self.mutex)\<close> (line 226): the flags
  are read once, and \<^verbatim>\<open>_handle_pause_or_stop\<close> (line 237) locks the same mutex again
  (line 255), which the worker holds: the call never returns and writes nothing.
\<close>

definition complete_job :: "env \<Rightarrow> nat \<Rightarrow> nat \<Rightarrow> JobExecution \<Rightarrow> world \<Rightarrow> outcome" where
  "complete_job ev successful failed execution s =
     (if \<not> should_stop ev (observed s) \<and> \<not> is_paused_at ev (observed s) then
        let s1 = commit_execution
                   (execution\<lparr>status := (if failed = 0 then Completed else Completed_with_errors),
                      completed_at := Some (utcnow ev)\<rparr>) s;
            s2 = s1\<lparr>progress_updated := progress_updated s1 @
                       [(total_files execution, total_files execution, ''Backup completed'')]\<rparr>
        in Returned (emit_completed True
             (''Backup completed: '' @ str_nat successful @ '' successful, '' @
              str_nat failed @ '' failed'') s2)
      else Deadlocked s)"

text \<open>
  The loop \<^verbatim>\<open>for i, item in enumerate(transfer_items)\<close> with the statements that follow it.
  \<open>successful\<close> and \<open>failed\<close> are the counters \<^verbatim>\<open>successful_transfers\<close> and
  \<^verbatim>\<open>failed_transfers\<close>; \<open>loop_state\<close> emits the progress event of an iteration, which
  carries \<^verbatim>\<open>current_progress = successful_transfers + failed_transfers + i\<close>.
\<close>

definition loop_state ::
  "nat \<Rightarrow> nat \<Rightarrow> nat \<Rightarrow> JobExecution \<Rightarrow> TransferItem \<Rightarrow> world \<Rightarrow> world" where
  "loop_state i successful failed execution item s =
     s\<lparr>progress_updated := progress_updated s @
          [(successful + failed + i, total_files execution,
            ''Copying '' @ basename (item_source_path item))]\<rparr>"

fun transfer_loop ::
  "env \<Rightarrow> nat \<Rightarrow> TransferItem list \<Rightarrow> nat \<Rightarrow> nat \<Rightarrow> JobExecution \<Rightarrow> world \<Rightarrow> outcome" where
  "transfer_loop ev i [] successful failed execution s =
     complete_job ev successful failed execution s"
| "transfer_loop ev i (item # items) successful failed execution s =
     (case check_pause_stop ev s of
        (True, s1) \<Rightarrow> Returned (handle_pause_or_stop ev execution s1)
      | (False, s1) \<Rightarrow>
          let s2 = loop_state i successful failed execution item s1
          in (case execute_local_transfer ev item (exec_id execution) s2 of
                (True, s3) \<Rightarrow>
                  let execution1 =
                        execution\<lparr>transferred_size := transferred_size execution + item_file_size item,
                          processed_files := Suc successful + failed, failed_files := failed\<rparr>
                  in transfer_loop ev (Suc i) items (Suc successful) failed execution1
                       (commit_execution execution1 s3)
              | (False, s3) \<Rightarrow>
                  let execution1 =
                        execution\<lparr>processed_files := successful + Suc failed,
                          failed_files := Suc failed\<rparr>
                  in transfer_loop ev (Suc i) items successful (Suc failed) execution1
                       (commit_execution execution1 s3)))"

text \<open>
  The paused execution of the job that started last (\<^verbatim>\<open>order_by(started_at.desc()).first()\<close>;
  among equal start times, the first row of the table).
\<close>

fun first_latest :: "JobExecution list \<Rightarrow> JobExecution option" where
  "first_latest [] = None"
| "first_latest (e # es) =
     (case first_latest es of
        None \<Rightarrow> Some e
      | Some e' \<Rightarrow> if started_at e < started_at e' then Some e' else Some e)"

definition existing_execution :: "nat \<Rightarrow> world \<Rightarrow> JobExecution option" where
  "existing_execution jid s =
     first_latest (filter (\<lambda>e. job_id e = jid \<and> status e = Paused) (executions s))"

text \<open>The set \<^verbatim>\<open>completed_paths\<close> of a resumed execution, without repetitions.\<close>

definition completed_paths_of :: "world \<Rightarrow> nat \<Rightarrow> path list" where
  "completed_paths_of s eid =
     remdups (map source_path
       (filter (\<lambda>t. execution_id t = eid \<and> transfer_status t = T_completed) (file_transfers s)))"

text \<open>A new row of \<^verbatim>\<open>job_executions\<close>, with the defaults of its columns.\<close>

definition new_execution :: "env \<Rightarrow> nat \<Rightarrow> world \<Rightarrow> JobExecution" where
  "new_execution ev jid s =
     \<lparr>exec_id = next_exec_id s, job_id = jid, status = Running, started_at = utcnow ev,
      completed_at = None, total_files = 0, processed_files = 0, failed_files = 0,
      total_size = 0, transferred_size = 0, error_message = None\<rparr>"

text \<open>The handler \<^verbatim>\<open>except Exception as e\<close> of the run.\<close>

definition error_text :: "error \<Rightarrow> string" where
  "error_text err =
     (case err of
        KeyError k \<Rightarrow> k
      | PermissionError p \<Rightarrow> ''[Errno 13] Permission denied: '' @ p)"

definition backup_failed :: "env \<Rightarrow> error \<Rightarrow> JobExecution \<Rightarrow> world \<Rightarrow> world" where
  "backup_failed ev err execution s =
     emit_completed False (''Backup failed: '' @ error_text err)
       (commit_execution
          (execution\<lparr>status := Failed, error_message := Some (error_text err),
             completed_at := Some (utcnow ev)\<rparr>) s)"

text \<open>
  Lines 175 to 180: the totals of a new execution, from the plan of all the scanned files.
\<close>

definition update_totals ::
  "env \<Rightarrow> BackupJob \<Rightarrow> bool \<Rightarrow> path list \<Rightarrow> JobExecution \<Rightarrow> world \<Rightarrow>
     (error + JobExecution \<times> world) option" where
  "update_totals ev job resumed source_files execution s =
     (if \<not> resumed then
        (case plan_transfers ev job source_files s of
           None \<Rightarrow> None
         | Some (Inl err) \<Rightarrow> Some (Inl err)
         | Some (Inr (all_items, s1)) \<Rightarrow>
             Some (Inr (execution\<lparr>total_files := length source_files,
                          total_size := sum_list (map item_file_size all_items)\<rparr>, s1)))
      else Some (Inr (execution, s)))"

text \<open>The run from the planning step on (lines 167 to 237).\<close>

definition plan_and_transfer ::
  "env \<Rightarrow> BackupJob \<Rightarrow> bool \<Rightarrow> path list \<Rightarrow> path list \<Rightarrow> JobExecution \<Rightarrow> world \<Rightarrow>
     outcome option" where
  "plan_and_transfer ev job resumed completed_paths source_files execution s =
     (let remaining_files = filter (\<lambda>f. f \<notin> set completed_paths) source_files in
      case plan_transfers ev job remaining_files s of
        None \<Rightarrow> None
      | Some (Inl err) \<Rightarrow> Some (Returned (backup_failed ev err execution s))
      | Some (Inr (transfer_items, s1)) \<Rightarrow>
          (case update_totals ev job resumed source_files execution
                  (s1\<lparr>planned := transfer_items\<rparr>) of
             None \<Rightarrow> None
           | Some (Inl err) \<Rightarrow> Some (Returned (backup_failed ev err execution s1))
           | Some (Inr (execution1, s2)) \<Rightarrow>
               let s3 = commit_execution execution1 s2 in
               if transfer_items = [] then
                 Some (Returned (emit_completed True ''Backup already completed''
                   (commit_execution
                      (execution1\<lparr>status := Completed, completed_at := Some (utcnow ev)\<rparr>) s3)))
               else
                 Some (transfer_loop ev 0 transfer_items (length completed_paths)
                         (failed_files execution1) execution1 s3)))"

text \<open>
  The run. An exception of the scan or of the plan reaches the handler of the run, which
  marks the execution \<^verbatim>\<open>failed\<close>.
\<close>

definition execute_backup :: "env \<Rightarrow> nat \<Rightarrow> world \<Rightarrow> outcome option" where
  "execute_backup ev jid s =
     (case find (\<lambda>j. job_ident j = jid) (jobs s) of
        None \<Rightarrow> Some (Returned (emit_completed False ''Job not found'' s))
      | Some job \<Rightarrow>
          let existing = existing_execution jid s;
              execution = (case existing of
                             Some e \<Rightarrow> e\<lparr>status := Running\<rparr>
                           | None \<Rightarrow> new_execution ev jid s);
              completed_paths = (case existing of
                                   Some e \<Rightarrow> completed_paths_of s (exec_id e)
                                 | None \<Rightarrow> []);
              s1 = commit_execution execution (s\<lparr>planned := []\<rparr>)
          in (case check_pause_stop ev s1 of
                (True, s2) \<Rightarrow> Some (Returned (handle_pause_or_stop ev execution s2))
              | (False, s2) \<Rightarrow>
                  (case scan_sources ev job s2 of
                     Inl err \<Rightarrow> Some (Returned (backup_failed ev err execution s2))
                   | Inr (source_files, s3) \<Rightarrow>
                       if source_files = [] then
                         Some (Returned (emit_completed True ''No files to backup''
                           (commit_execution
                              (execution\<lparr>status := Completed,
                                 completed_at := Some (utcnow ev)\<rparr>) s3)))
                       else plan_and_transfer ev job (existing \<noteq> None) completed_paths
                              source_files execution s3)))"

section \<open>The local connector (src/connectors/local_target.py)\<close>

text \<open>The connector is modelled on paths whose \<^verbatim>\<open>stat\<close> is not refused.\<close>

text \<open>
  The loop of \<^verbatim>\<open>_handle_conflict\<close> under the policy \<^verbatim>\<open>rename\<close>, with its cap:
  \<^verbatim>\<open>
  while True:
      new_path = target_path.parent / f"{stem}_{counter}{suffix}"
      if not new_path.exists(): return new_path
      counter += 1
      if counter > 9999:
          logger.warning(...); return target_path
  \<close>
  The second component of the result says whether the warning was logged.
\<close>

function handle_conflict_loop ::
  "(path \<Rightarrow> bool) \<Rightarrow> path \<Rightarrow> string \<Rightarrow> string \<Rightarrow> nat \<Rightarrow> path \<times> bool" where
  "handle_conflict_loop exists_at target stem suffix counter =
     (let new_path = renamed target stem suffix counter in
      if \<not> exists_at new_path then (new_path, False)
      else if Suc counter > 9999 then (target, True)
      else handle_conflict_loop exists_at target stem suffix (Suc counter))"
  by pat_completeness auto
termination
  by (relation "measure (\<lambda>(exists_at, target, stem, suffix, counter). 10000 - counter)") auto

declare handle_conflict_loop.simps [simp del]

definition handle_conflict :: "(path \<Rightarrow> bool) \<Rightarrow> path \<Rightarrow> string \<Rightarrow> path option \<times> bool" where
  "handle_conflict exists_at target policy =
     (if \<not> exists_at target then (Some target, False)
      else if policy = ''skip'' then (None, False)
      else if policy = ''overwrite'' then (Some target, False)
      else if policy = ''rename'' then
        (case handle_conflict_loop exists_at target (stem_of (basename target))
                (suffix_of (basename target)) 1 of
           (p, warned) \<Rightarrow> (Some p, warned))
      else (Some target, False))"

text \<open>\<^verbatim>\<open>FileHasher.verify_file_integrity\<close>: false when either file cannot be read.\<close>

definition verify_file_integrity :: "env \<Rightarrow> world \<Rightarrow> path \<Rightarrow> path \<Rightarrow> bool" where
  "verify_file_integrity ev s a b =
     (case (files s a, files s b) of
        (Some x, Some y) \<Rightarrow> sha256 ev x = sha256 ev y
      | _ \<Rightarrow> False)"

text \<open>
  \<^verbatim>\<open>LocalTargetConnector.upload_file\<close>: the result is \<^verbatim>\<open>(success, final_path)\<close>. The temporary
  file is \<^verbatim>\<open>.<name>.tmp\<close> beside the final target, and is removed on every failure.
\<close>

definition upload_file ::
  "env \<Rightarrow> path \<Rightarrow> path \<Rightarrow> string \<Rightarrow> world \<Rightarrow> (bool \<times> path option) \<times> world" where
  "upload_file ev source target policy s =
     (case files s source of
        None \<Rightarrow> ((False, None), s)
      | Some content \<Rightarrow>
          (case fst (handle_conflict (\<lambda>p. files s p \<noteq> None) target policy) of
             None \<Rightarrow> ((True, Some target), s)
           | Some final_target \<Rightarrow>
               let temp_file = path_join (parent final_target)
                                 (''.'' @ basename final_target @ ''.tmp'')
               in (case copy2 ev source content of
                     None \<Rightarrow> ((False, None), s\<lparr>files := (files s)(temp_file := None)\<rparr>)
                   | Some written \<Rightarrow>
                       let s1 = s\<lparr>files := (files s)(temp_file \<mapsto> written)\<rparr> in
                       if \<not> verify_file_integrity ev s1 source temp_file then
                         ((False, None), s1\<lparr>files := (files s1)(temp_file := None)\<rparr>)
                       else
                         ((True, Some final_target),
                          s1\<lparr>files := (files s1)(temp_file := None, final_target \<mapsto> written)\<rparr>))))"

section \<open>Sample inputs\<close>

text \<open>
  An environment with a faithful copy, the wildcard matcher, the content itself as its
  digest, no directory, no refused path, and no pause or stop request.
\<close>

definition quiet_env :: env where
  "quiet_env =
     \<lparr>fnmatch = fnmatch_wild, sha256 = (\<lambda>content. content), copy2 = (\<lambda>p content. Some content),
      walk = (\<lambda>p. None), refused = (\<lambda>p. False), stop_at = None, is_paused_at = (\<lambda>n. False),
      utcnow = 0\<rparr>"

text \<open>An execution that ended with errors at time 0, and a ledger that holds it.\<close>

definition old_partial :: JobExecution where
  "old_partial =
     \<lparr>exec_id = 1, job_id = 1, status = Completed_with_errors, started_at = 0,
      completed_at = Some 0, total_files = 2, processed_files = 2, failed_files = 1,
      total_size = 3, transferred_size = 1, error_message = None\<rparr>"

definition old_ledger :: world where
  "old_ledger =
     \<lparr>jobs = [], executions = [old_partial],
      file_transfers =
        [\<lparr>execution_id = 1, source_path = ''/d/a'', target_path = ''/bk/j/a'', file_size = 1,
          checksum = Some ''x'', transfer_status = T_completed, transferred_bytes = 1,
          transfer_error = None\<rparr>],
      files = Map.empty, progress_updated = [], backup_completed = [], observed = 0,
      planned = []\<rparr>"

text \<open>A job of three files under the policy \<^verbatim>\<open>rename\<close>, before its first run.\<close>

definition three_job :: BackupJob where
  "three_job =
     \<lparr>job_ident = 1, job_name = ''j'', sources = [''/d/a'', ''/d/b'', ''/d/c''],
      include_patterns = None, exclude_patterns = None, target_type = ''local'',
      target_config = [(''local_path'', ''/bk'')], conflict_policy = ''rename''\<rparr>"

definition three_files :: world where
  "three_files =
     \<lparr>jobs = [three_job], executions = [], file_transfers = [],
      files = [''/d/a'' \<mapsto> ''x'', ''/d/b'' \<mapsto> ''yy'', ''/d/c'' \<mapsto> ''zzz''],
      progress_updated = [], backup_completed = [], observed = 0, planned = []\<rparr>"

text \<open>A job of one file under the policy \<^verbatim>\<open>overwrite\<close>, before its first run.\<close>

definition one_job :: BackupJob where
  "one_job =
     \<lparr>job_ident = 1, job_name = ''j'', sources = [''/d/a''],
      include_patterns = None, exclude_patterns = None, target_type = ''local'',
      target_config = [(''local_path'', ''/bk'')], conflict_policy = ''overwrite''\<rparr>"

definition one_file :: world where
  "one_file =
     \<lparr>jobs = [one_job], executions = [], file_transfers = [],
      files = [''/d/a'' \<mapsto> ''x''],
      progress_updated = [], backup_completed = [], observed = 0, planned = []\<rparr>"



text \<open>
  A job on a directory whose walk lists a name that is no longer a readable file (a broken
  link, or a file removed after the scan).
\<close>

definition dir_env :: env where
  "dir_env =
     quiet_env\<lparr>walk := (\<lambda>p. if p = ''/d'' then Some [(''/d'', [''a'', ''gone''])] else None)\<rparr>"

definition dir_job :: BackupJob where
  "dir_job =
     \<lparr>job_ident = 1, job_name = ''j'', sources = [''/d''],
      include_patterns = None, exclude_patterns = None, target_type = ''local'',
      target_config = [(''local_path'', ''/bk'')], conflict_policy = ''overwrite''\<rparr>"

definition dir_world :: world where
  "dir_world =
     \<lparr>jobs = [dir_job], executions = [], file_transfers = [],
      files = [''/d/a'' \<mapsto> ''x''],
      progress_updated = [], backup_completed = [], observed = 0, planned = []\<rparr>"

text \<open>The content of a path in a state.\<close>

definition file_at :: "path \<Rightarrow> world \<Rightarrow> string option" where
  "file_at p s = files s p"

text \<open>An environment whose copy is corrupted: it appends a character.\<close>

definition corrupt_env :: env where
  "corrupt_env = quiet_env\<lparr>copy2 := (\<lambda>p content. Some (content @ ''!''))\<rparr>"

text \<open>The job of one file, with a file already at its destination.\<close>

definition occupied_world :: world where
  "occupied_world = one_file\<lparr>files := [''/d/a'' \<mapsto> ''x'', ''/bk/j/a'' \<mapsto> ''old'']\<rparr>"

text \<open>The same under the policy \<^verbatim>\<open>skip\<close>.\<close>

definition skip_job :: BackupJob where
  "skip_job = one_job\<lparr>conflict_policy := ''skip''\<rparr>"

definition skip_world :: world where
  "skip_world = occupied_world\<lparr>jobs := [skip_job]\<rparr>"

text \<open>The item of that file, and a running execution.\<close>

definition one_item :: TransferItem where
  "one_item = \<lparr>item_source_path = ''/d/a'', item_target_path = ''/bk/j/a'', item_file_size = 1\<rparr>"

definition running_execution :: JobExecution where
  "running_execution =
     \<lparr>exec_id = 1, job_id = 1, status = Running, started_at = 0, completed_at = None,
      total_files = 1, processed_files = 0, failed_files = 0, total_size = 1,
      transferred_size = 0, error_message = None\<rparr>"


text \<open>
  A destination directory that holds \<^verbatim>\<open>a.txt\<close> and \<^verbatim>\<open>a_1.txt\<close> to \<^verbatim>\<open>a_9999.txt\<close>, a source
  file \<^verbatim>\<open>/d/a.txt\<close>, and a job under the policy \<^verbatim>\<open>rename\<close>.
\<close>

definition crowded :: "path \<Rightarrow> bool" where
  "crowded p =
     (p \<in> set (''/bk/j/a.txt'' # map (renamed ''/bk/j/a.txt'' ''a'' ''.txt'') [1..<10000]))"

definition crowded_job :: BackupJob where
  "crowded_job =
     \<lparr>job_ident = 1, job_name = ''j'', sources = [''/d/a.txt''],
      include_patterns = None, exclude_patterns = None, target_type = ''local'',
      target_config = [(''local_path'', ''/bk'')], conflict_policy = ''rename''\<rparr>"

definition crowded_world :: world where
  "crowded_world =
     \<lparr>jobs = [crowded_job], executions = [], file_transfers = [],
      files = (\<lambda>p. if p = ''/d/a.txt'' \<or> crowded p then Some ''x'' else None),
      progress_updated = [], backup_completed = [], observed = 0, planned = []\<rparr>"

section \<open>Properties\<close>

subsection \<open>Filters and progress\<close>

lemma pattern_loop_iff:
  "pattern_loop fnm (basename p) p pats \<longleftrightarrow> (\<exists>x \<in> set pats. matches_pattern fnm p x)"
  by (induction pats) (auto simp: matches_pattern_def Let_def)

text \<open>
  Claim C4. The scanner's inclusion decision: a file matching any exclude pattern (by
  basename or by full path) is dropped whatever the include patterns say; otherwise,
  with a non-empty include list the file is kept exactly when it matches at least one
  include pattern, and with an empty include list it is kept.
\<close>

theorem should_include_file_precedence:
  "((\<exists>x \<in> set exclude_pats. matches_pattern fnm p x) \<longrightarrow>
      \<not> should_include_file fnm p include_pats exclude_pats) \<and>
   (\<not> (\<exists>x \<in> set exclude_pats. matches_pattern fnm p x) \<and> include_pats \<noteq> [] \<longrightarrow>
      (should_include_file fnm p include_pats exclude_pats \<longleftrightarrow>
         (\<exists>x \<in> set include_pats. matches_pattern fnm p x))) \<and>
   (\<not> (\<exists>x \<in> set exclude_pats. matches_pattern fnm p x) \<and> include_pats = [] \<longrightarrow>
      should_include_file fnm p include_pats exclude_pats)"
  unfolding should_include_file_def Let_def pattern_loop_iff by auto

theorem should_include_file_precedence_witness:
  "\<not> should_include_file fnmatch_wild ''/docs/a.txt'' ['' *.txt''] [''a.*'', ''*.tmp''] \<and>
   should_include_file fnmatch_wild ''/docs/a.txt'' ['' *.txt''] [''*.tmp''] \<and>
   should_include_file fnmatch_wild ''/docs/a.txt'' [] [''*.tmp'']"
  using
    should_include_file_precedence
      [of "[''a.*'', ''*.tmp'']" fnmatch_wild "''/docs/a.txt''" "['' *.txt'']"]
    should_include_file_precedence
      [of "[''*.tmp'']" fnmatch_wild "''/docs/a.txt''" "['' *.txt'']"]
    should_include_file_precedence [of "[''*.tmp'']" fnmatch_wild "''/docs/a.txt''" "[]"]
  by (simp add: matches_pattern_def basename_def strip_def is_space_def fnmatch_wild_def)

text \<open>
  Claim C10. \<^verbatim>\<open>get_progress_percentage\<close> returns 0 when \<^verbatim>\<open>total_files\<close> is 0, and otherwise
  a value of at most 100, whatever the processed count is (also when it exceeds the
  total) and whatever the floating-point quotient rounds to.
\<close>

theorem get_progress_percentage_capped:
  "(total_files e = 0 \<longrightarrow> get_progress_percentage float_pct e = 0) \<and>
   (total_files e \<noteq> 0 \<longrightarrow> get_progress_percentage float_pct e \<le> 100)"
  by (simp add: get_progress_percentage_def)

theorem get_progress_percentage_capped_witness:
  "get_progress_percentage exact_pct
     \<lparr>exec_id = 1, job_id = 1, status = Running, started_at = 0, completed_at = None,
      total_files = 0, processed_files = 5, failed_files = 0, total_size = 0,
      transferred_size = 0, error_message = None\<rparr> = 0 \<and>
   get_progress_percentage exact_pct
     \<lparr>exec_id = 1, job_id = 1, status = Running, started_at = 0, completed_at = None,
      total_files = 3, processed_files = 7, failed_files = 0, total_size = 0,
      transferred_size = 0, error_message = None\<rparr> = 100"
  using
    get_progress_percentage_capped
      [of "\<lparr>exec_id = 1, job_id = 1, status = Running, started_at = 0, completed_at = None,
            total_files = 0, processed_files = 5, failed_files = 0, total_size = 0,
            transferred_size = 0, error_message = None\<rparr>" exact_pct]
    get_progress_percentage_capped
      [of "\<lparr>exec_id = 1, job_id = 1, status = Running, started_at = 0, completed_at = None,
            total_files = 3, processed_files = 7, failed_files = 0, total_size = 0,
            transferred_size = 0, error_message = None\<rparr>" exact_pct]
  by (simp add: get_progress_percentage_def exact_pct_def)

subsection \<open>Frame lemmas: what each step leaves unchanged\<close>

lemma get_execution_commit_same [simp]:
  "get_execution (commit_execution e s) (exec_id e) = Some e"
proof -
  have a: "\<not> list_ex (\<lambda>x. exec_id x = i) xs \<Longrightarrow> find (\<lambda>x. exec_id x = i) xs = None" for i xs
    by (induction xs) auto
  have b: "list_ex (\<lambda>x. exec_id x = exec_id e) xs \<Longrightarrow>
    find (\<lambda>x. exec_id x = exec_id e) (map (\<lambda>x. if exec_id x = exec_id e then e else x) xs) = Some e" for xs
    by (induction xs) auto
  have c: "find P xs = None \<Longrightarrow> find P (xs @ ys) = find P ys" for P xs and ys :: "JobExecution list"
    by (induction xs) (auto split: if_splits)
  show ?thesis
    using a [of "exec_id e" "executions s"] b [of "executions s"]
    by (auto simp: get_execution_def commit_execution_def c)
qed

lemma commit_execution_fields [simp]:
  "file_transfers (commit_execution e s) = file_transfers s"
  "files (commit_execution e s) = files s"
  "progress_updated (commit_execution e s) = progress_updated s"
  "backup_completed (commit_execution e s) = backup_completed s"
  "observed (commit_execution e s) = observed s"
  "planned (commit_execution e s) = planned s"
  "jobs (commit_execution e s) = jobs s"
  by (simp_all add: commit_execution_def)

lemma emit_completed_fields [simp]:
  "file_transfers (emit_completed ok msg s) = file_transfers s"
  "files (emit_completed ok msg s) = files s"
  "progress_updated (emit_completed ok msg s) = progress_updated s"
  "observed (emit_completed ok msg s) = observed s"
  "planned (emit_completed ok msg s) = planned s"
  "executions (emit_completed ok msg s) = executions s"
  "get_execution (emit_completed ok msg s) i = get_execution s i"
  by (simp_all add: emit_completed_def get_execution_def)

lemma get_execution_update_others [simp]:
  "get_execution (s\<lparr>progress_updated := p\<rparr>) i = get_execution s i"
  "get_execution (s\<lparr>observed := n\<rparr>) i = get_execution s i"
  "get_execution (s\<lparr>planned := pl\<rparr>) i = get_execution s i"
  "get_execution (s\<lparr>files := f\<rparr>) i = get_execution s i"
  "get_execution (s\<lparr>file_transfers := ts\<rparr>) i = get_execution s i"
  by (simp_all add: get_execution_def)

lemma should_stop_mono: "should_stop ev n \<Longrightarrow> n \<le> m \<Longrightarrow> should_stop ev m"
  by (auto simp: should_stop_def split: option.splits)

lemma should_stop_never [simp]: "stop_at ev = None \<Longrightarrow> \<not> should_stop ev n"
  by (simp add: should_stop_def)

lemma handle_pause_or_stop_fields [simp]:
  "file_transfers (handle_pause_or_stop ev e s) = file_transfers s"
  "files (handle_pause_or_stop ev e s) = files s"
  "progress_updated (handle_pause_or_stop ev e s) = progress_updated s"
  "planned (handle_pause_or_stop ev e s) = planned s"
  "observed (handle_pause_or_stop ev e s) = observed s"
  by (simp_all add: handle_pause_or_stop_def)

lemma handle_stop:
  "should_stop ev (observed s) \<Longrightarrow>
   get_execution (handle_pause_or_stop ev e s) (exec_id e) =
     Some (e\<lparr>status := Cancelled, completed_at := Some (utcnow ev)\<rparr>)"
  using get_execution_commit_same [of "e\<lparr>status := Cancelled, completed_at := Some (utcnow ev)\<rparr>" s]
  by (simp add: handle_pause_or_stop_def)

lemma execute_local_transfer_fields [simp]:
  "executions (snd (execute_local_transfer ev item eid s)) = executions s"
  "progress_updated (snd (execute_local_transfer ev item eid s)) = progress_updated s"
  "observed (snd (execute_local_transfer ev item eid s)) = observed s"
  "planned (snd (execute_local_transfer ev item eid s)) = planned s"
  "get_execution (snd (execute_local_transfer ev item eid s)) i = get_execution s i"
  by (simp_all add: execute_local_transfer_def add_transfer_def Let_def get_execution_def
      split: option.splits)


lemma commit_execution_rows:
  "x \<in> set (executions (commit_execution e s)) \<Longrightarrow> x = e \<or> x \<in> set (executions s)"
  by (auto simp: commit_execution_def list_ex_iff split: if_splits)

lemma handle_pause_or_stop_rows:
  "should_stop ev (observed s) \<Longrightarrow> x \<in> set (executions (handle_pause_or_stop ev e s)) \<Longrightarrow>
   x = e\<lparr>status := Cancelled, completed_at := Some (utcnow ev)\<rparr> \<or> x \<in> set (executions s)"
  by (auto simp: handle_pause_or_stop_def dest: commit_execution_rows)

lemma execute_local_transfer_grows:
  "set (file_transfers s) \<subseteq> set (file_transfers (snd (execute_local_transfer ev item eid s)))"
  by (auto simp: execute_local_transfer_def add_transfer_def Let_def split: option.splits)

lemma execute_local_transfer_records:
  "\<exists>t \<in> set (file_transfers (snd (execute_local_transfer ev item eid s))).
     execution_id t = eid \<and> source_path t = item_source_path item"
  by (auto simp: execute_local_transfer_def add_transfer_def Let_def completed_before_def
      list_ex_iff split: option.splits)

lemma transfer_loop_step:
  "transfer_loop ev i (item # items) successful failed e s =
     (if should_stop ev (observed s) then
        Returned (handle_pause_or_stop ev e (s\<lparr>observed := Suc (observed s)\<rparr>))
      else if fst (execute_local_transfer ev item (exec_id e)
                    (loop_state i successful failed e item (s\<lparr>observed := Suc (observed s)\<rparr>))) then
        transfer_loop ev (Suc i) items (Suc successful) failed
          (e\<lparr>transferred_size := transferred_size e + item_file_size item,
             processed_files := Suc successful + failed, failed_files := failed\<rparr>)
          (commit_execution
             (e\<lparr>transferred_size := transferred_size e + item_file_size item,
                processed_files := Suc successful + failed, failed_files := failed\<rparr>)
             (snd (execute_local_transfer ev item (exec_id e)
                     (loop_state i successful failed e item (s\<lparr>observed := Suc (observed s)\<rparr>)))))
      else
        transfer_loop ev (Suc i) items successful (Suc failed)
          (e\<lparr>processed_files := successful + Suc failed, failed_files := Suc failed\<rparr>)
          (commit_execution
             (e\<lparr>processed_files := successful + Suc failed, failed_files := Suc failed\<rparr>)
             (snd (execute_local_transfer ev item (exec_id e)
                     (loop_state i successful failed e item (s\<lparr>observed := Suc (observed s)\<rparr>))))))"
  by (simp add: check_pause_stop_def Let_def split: prod.splits bool.splits)

declare transfer_loop.simps(2) [simp del]

lemma final_world_simps [simp]:
  "final_world (Returned s) = s" "final_world (Deadlocked s) = s"
  by (simp_all add: final_world_def)

text \<open>The row of the execution when the statements after the loop have run.\<close>

lemma complete_job_row:
  assumes "get_execution s (exec_id e) = Some e"
  shows "\<exists>e'. get_execution (final_world (complete_job ev successful failed e s)) (exec_id e) = Some e' \<and>
     total_files e' = total_files e \<and> total_size e' = total_size e \<and>
     processed_files e' = processed_files e \<and>
     (status e' = status e \<or> status e' = (if failed = 0 then Completed else Completed_with_errors)) \<and>
     (\<not> should_stop ev (observed s) \<and> \<not> is_paused_at ev (observed s) \<longrightarrow>
        (\<exists>s'. complete_job ev successful failed e s = Returned s') \<and>
        status e' = (if failed = 0 then Completed else Completed_with_errors))"
proof (cases "\<not> should_stop ev (observed s) \<and> \<not> is_paused_at ev (observed s)")
  case True
  let ?e = "e\<lparr>status := (if failed = 0 then Completed else Completed_with_errors),
                      completed_at := Some (utcnow ev)\<rparr>"
  have "get_execution (final_world (complete_job ev successful failed e s)) (exec_id e) = Some ?e"
    using True get_execution_commit_same [of ?e s]
    by (simp add: complete_job_def Let_def)
  then show ?thesis using True by (auto simp: complete_job_def Let_def)
next
  case False
  then have "complete_job ev successful failed e s = Deadlocked s"
    by (auto simp: complete_job_def)
  then show ?thesis using assms False by auto
qed

text \<open>
  The row of the execution at the end of the loop, for every environment: the totals are
  those of the start; a failure counted leaves no way to \<^verbatim>\<open>completed\<close>; no row becomes
  \<^verbatim>\<open>paused\<close>.
\<close>

lemma transfer_loop_row:
  assumes "get_execution s (exec_id e) = Some e"
  shows "\<exists>e'. get_execution (final_world (transfer_loop ev i items successful failed e s))
               (exec_id e) = Some e' \<and>
     total_files e' = total_files e \<and> total_size e' = total_size e \<and>
     (status e' = status e \<or> status e' = Completed \<or> status e' = Completed_with_errors \<or>
      status e' = Cancelled) \<and>
     (status e \<noteq> Completed \<and> 0 < failed \<longrightarrow> status e' \<noteq> Completed) \<and>
     (status e \<noteq> Completed \<and> status e' = Completed \<and> processed_files e = successful + failed \<longrightarrow>
        processed_files e' = successful + failed + length items) \<and>
     (stop_at ev = None \<and> processed_files e = successful + failed \<longrightarrow>
        processed_files e' = successful + failed + length items) \<and>
     (stop_at ev = None \<and> (\<forall>n. \<not> is_paused_at ev n) \<longrightarrow>
        (\<exists>s'. transfer_loop ev i items successful failed e s = Returned s') \<and>
        (0 < failed \<longrightarrow> status e' = Completed_with_errors))"
  using assms
proof (induction items arbitrary: i successful failed e s)
  case Nil
  show ?case using complete_job_row [OF Nil, of ev successful failed]
    by (auto split: if_splits)
next
  case (Cons item items)
  let ?r = "execute_local_transfer ev item (exec_id e)
              (loop_state i successful failed e item (s\<lparr>observed := Suc (observed s)\<rparr>))"
  let ?e1 = "e\<lparr>transferred_size := transferred_size e + item_file_size item,
             processed_files := Suc successful + failed, failed_files := failed\<rparr>"
  let ?e2 = "e\<lparr>processed_files := successful + Suc failed, failed_files := Suc failed\<rparr>"
  show ?case
  proof (cases "should_stop ev (observed s)")
    case True
    then have "should_stop ev (observed (s\<lparr>observed := Suc (observed s)\<rparr>))"
      by (auto intro: should_stop_mono)
    from handle_stop [OF this, of e] True show ?thesis
      by (simp only: transfer_loop_step) (auto simp: should_stop_def)
  next
    case False
    show ?thesis
    proof (cases "fst ?r")
      case True
      have "get_execution (commit_execution ?e1 (snd ?r)) (exec_id ?e1) = Some ?e1"
        by (rule get_execution_commit_same)
      from Cons.IH [OF this, of "Suc i" "Suc successful" failed]
      show ?thesis using False True
        by (simp only: transfer_loop_step) (auto split: if_splits)
    next
      case nok: False
      have "get_execution (commit_execution ?e2 (snd ?r)) (exec_id ?e2) = Some ?e2"
        by (rule get_execution_commit_same)
      from Cons.IH [OF this, of "Suc i" successful "Suc failed"]
      show ?thesis using False nok
        by (simp only: transfer_loop_step) (auto split: if_splits)
    qed
  qed
qed

subsection \<open>Names\<close>

lemma str_nat_small: "n < 10 \<Longrightarrow> str_nat n = [digit n]"
  by (subst str_nat.simps) simp

lemma str_nat_large: "\<not> n < 10 \<Longrightarrow> str_nat n = str_nat (n div 10) @ [digit (n mod 10)]"
  by (subst str_nat.simps) simp

lemma of_char_digit: "d < 10 \<Longrightarrow> (of_char (digit d) :: nat) = 48 + d"
  by (simp add: digit_def)

lemma int_of_str_nat: "int_of_str (str_nat n) = n"
proof (induction n rule: str_nat.induct)
  case (1 n)
  show ?case
  proof (cases "n < 10")
    case True
    then show ?thesis by (simp add: str_nat_small int_of_str_def of_char_digit)
  next
    case False
    have "n mod 10 < 10" by simp
    then have d: "(of_char (digit (n mod 10)) :: nat) = 48 + n mod 10" by (rule of_char_digit)
    from False 1 have "int_of_str (str_nat (n div 10)) = n div 10" by simp
    then have "int_of_str (str_nat (n div 10) @ [digit (n mod 10)]) = 10 * (n div 10) + n mod 10"
      using d by (simp add: int_of_str_def)
    with False show ?thesis by (simp add: str_nat_large)
  qed
qed

lemma str_nat_inj: "str_nat a = str_nat b \<Longrightarrow> a = b"
  by (metis int_of_str_nat)

lemma str_nat_digits: "c \<in> set (str_nat n) \<Longrightarrow> \<exists>d<10. c = digit d"
proof (induction n rule: str_nat.induct)
  case (1 n)
  show ?case
  proof (cases "n < 10")
    case True
    with "1.prems" show ?thesis by (auto simp: str_nat_small)
  next
    case False
    with "1.prems" have "c \<in> set (str_nat (n div 10)) \<or> c = digit (n mod 10)"
      by (auto simp: str_nat_large)
    then show ?thesis
    proof
      assume "c \<in> set (str_nat (n div 10))"
      with False 1 show ?thesis by simp
    next
      assume "c = digit (n mod 10)"
      moreover have "n mod 10 < 10" by simp
      ultimately show ?thesis by blast
    qed
  qed
qed

lemma str_nat_no_slash: "CHR ''/'' \<notin> set (str_nat n)"
proof
  assume "CHR ''/'' \<in> set (str_nat n)"
  then obtain d where d: "d < 10" "CHR ''/'' = digit d" using str_nat_digits by blast
  then have "(of_char (CHR ''/'') :: nat) = 48 + d" using of_char_digit by simp
  then show False by simp
qed

lemma basename_no_slash: "CHR ''/'' \<notin> set (basename p)"
  unfolding basename_def by (auto dest: set_takeWhileD)

lemma basename_append:
  assumes "CHR ''/'' \<notin> set b" "x = [] \<or> last x = CHR ''/''"
  shows "basename (x @ b) = b"
proof -
  have a: "takeWhile (\<lambda>c. c \<noteq> CHR ''/'') (rev b @ rev x) =
        rev b @ takeWhile (\<lambda>c. c \<noteq> CHR ''/'') (rev x)"
    using assms(1) by (intro takeWhile_append2) auto
  have "takeWhile (\<lambda>c. c \<noteq> CHR ''/'') (rev x) = []"
  proof (cases "x = []")
    case True
    then show ?thesis by simp
  next
    case False
    with assms(2) have "hd (rev x) = CHR ''/''" by (simp add: hd_rev)
    with False show ?thesis by (cases "rev x") auto
  qed
  with a show ?thesis by (simp add: basename_def)
qed





lemma parent_append:
  assumes "CHR ''/'' \<notin> set n" "d \<noteq> []"
  shows "parent (d @ ''/'' @ n) = d"
proof -
  have "dropWhile (\<lambda>c. c \<noteq> CHR ''/'') (rev n @ CHR ''/'' # rev d) = CHR ''/'' # rev d"
    using assms(1) by (subst dropWhile_append2) auto
  with assms(2) show ?thesis by (simp add: parent_def)
qed

subsection \<open>Collisions under the policy rename\<close>

lemma handle_conflict_loop_last:
  "ex (renamed t stem suffix c) \<Longrightarrow> Suc c > 9999 \<Longrightarrow>
   handle_conflict_loop ex t stem suffix c = (t, True)"
  by (subst handle_conflict_loop.simps) (simp only: Let_def if_True if_False simp_thms)

lemma handle_conflict_loop_next:
  "ex (renamed t stem suffix c) \<Longrightarrow> \<not> Suc c > 9999 \<Longrightarrow>
   handle_conflict_loop ex t stem suffix c = handle_conflict_loop ex t stem suffix (Suc c)"
  by (subst handle_conflict_loop.simps) (simp only: Let_def if_True if_False simp_thms)

text \<open>The connector gives up after the candidates 1 to 9999 and returns the target.\<close>

lemma handle_conflict_loop_fallback:
  "(\<And>k. c \<le> k \<Longrightarrow> k \<le> 9999 \<Longrightarrow> ex (renamed t stem suffix k)) \<Longrightarrow> c \<le> 9999 \<Longrightarrow>
   handle_conflict_loop ex t stem suffix c = (t, True)"
proof (induction "9999 - c" arbitrary: c)
  case 0
  then have "Suc c > 9999" by simp
  moreover have "ex (renamed t stem suffix c)" using 0 by simp
  ultimately show ?case by (rule handle_conflict_loop_last [rotated])
next
  case (Suc n)
  then have small: "\<not> Suc c > 9999" by simp
  have here: "ex (renamed t stem suffix c)" using Suc.prems by simp
  have "n = 9999 - Suc c" using Suc.hyps(2) by simp
  moreover have "\<And>k. Suc c \<le> k \<Longrightarrow> k \<le> 9999 \<Longrightarrow> ex (renamed t stem suffix k)"
    using Suc.prems(1) by simp
  moreover have "Suc c \<le> 9999" using small by simp
  ultimately have "handle_conflict_loop ex t stem suffix (Suc c) = (t, True)"
    by (rule Suc.hyps(1))
  with handle_conflict_loop_next [of ex t stem suffix c, OF here small] show ?case by simp
qed

text \<open>The planner walks over the candidates that exist, up to the first free one.\<close>

lemma plan_rename_loop_skip:
  assumes same: "\<And>k m. renamed (cand k) stem suffix m = cand m"
    and ok: "\<And>k. \<not> rf (cand k)"
    and free: "\<not> ex (cand m)"
  shows "c \<le> m \<Longrightarrow> (\<And>k. c \<le> k \<Longrightarrow> k < m \<Longrightarrow> ex (cand k)) \<Longrightarrow>
         plan_rename_loop rf ex stem suffix (cand c) (Suc c) = Some (Inr (cand m))"
proof (induction "m - c" arbitrary: c)
  case 0
  then have "c = m" by simp
  with ok free show ?case by (subst plan_rename_loop.simps) simp
next
  case (Suc n)
  then have lt: "c < m" by simp
  with Suc.prems have here: "ex (cand c)" by simp
  have "n = m - Suc c" using Suc.hyps(2) by simp
  moreover have "Suc c \<le> m" using lt by simp
  moreover have "\<And>k. Suc c \<le> k \<Longrightarrow> k < m \<Longrightarrow> ex (cand k)" using Suc.prems(2) by simp
  ultimately have "plan_rename_loop rf ex stem suffix (cand (Suc c)) (Suc (Suc c)) =
                   Some (Inr (cand m))"
    by (rule Suc.hyps(1))
  with here ok same show ?case by (subst plan_rename_loop.simps) simp
qed



text \<open>The candidates of the crowded directory.\<close>

lemma crowded_candidate:
  "renamed ''/bk/j/a.txt'' ''a'' ''.txt'' k = ''/bk/j/a_'' @ str_nat k @ ''.txt''"
  by (simp add: renamed_def parent_def path_join_def)

lemma crowded_candidate_again:
  "renamed (''/bk/j/a_'' @ str_nat k @ ''.txt'') ''a'' ''.txt'' m = ''/bk/j/a_'' @ str_nat m @ ''.txt''"
proof -
  have "CHR ''/'' \<notin> set (''a_'' @ str_nat k @ ''.txt'')" by (simp add: str_nat_no_slash)
  then have "parent (''/bk/j'' @ ''/'' @ (''a_'' @ str_nat k @ ''.txt'')) = ''/bk/j''"
    by (rule parent_append) simp
  then show ?thesis by (simp add: renamed_def path_join_def)
qed

lemma crowded_iff:
  "crowded p \<longleftrightarrow> p = ''/bk/j/a.txt'' \<or> (\<exists>k. 1 \<le> k \<and> k < 10000 \<and> p = ''/bk/j/a_'' @ str_nat k @ ''.txt'')"
  by (simp only: crowded_def list.set set_map set_upt) (auto simp: crowded_candidate)

lemma digit_low: "digit 0 = CHR ''0''" "digit (Suc 0) = CHR ''1''"
  by (simp_all add: digit_def char_of_def bit_Suc_0_iff)

lemma str_nat_10000: "str_nat 10000 = ''10000''"
  by (simp add: str_nat_large str_nat_small digit_low)

text \<open>
  Claim C5. Under the policy \<^verbatim>\<open>rename\<close> the resolution of a collision is bounded by a cap,
  beyond which it falls back to the target and logs a warning. The connector does so; the
  planner of the engine has no cap, no fallback and no warning: in a destination directory
  that holds \<^verbatim>\<open>a.txt\<close> and \<^verbatim>\<open>a_1.txt\<close> to \<^verbatim>\<open>a_9999.txt\<close>, the connector returns \<^verbatim>\<open>a.txt\<close> and
  warns, and the planner plans \<^verbatim>\<open>a_10000.txt\<close>.
\<close>

theorem plan_target_past_cap:
  "plan_target quiet_env crowded_job ''/bk'' ''/d/a.txt'' crowded_world =
     Some (Inr ''/bk/j/a_10000.txt'') \<and>
   handle_conflict (\<lambda>p. files crowded_world p \<noteq> None) ''/bk/j/a.txt'' ''rename'' =
     (Some ''/bk/j/a.txt'', True)"
proof -
  let ?ex = "\<lambda>p. files crowded_world p \<noteq> None"
  let ?cand = "\<lambda>k. ''/bk/j/a_'' @ str_nat k @ ''.txt''"
  have ex_iff: "\<And>p. ?ex p \<longleftrightarrow> p = ''/d/a.txt'' \<or> crowded p"
    by (simp add: crowded_world_def)
  have full: "\<And>k. 1 \<le> k \<Longrightarrow> k < 10000 \<Longrightarrow> ?ex (?cand k)"
    unfolding ex_iff crowded_iff by blast
  have free: "\<not> ?ex (?cand 10000)"
  proof
    assume "?ex (?cand 10000)"
    then have "crowded (?cand 10000)" unfolding ex_iff by simp
    then obtain k where k: "k < 10000" "?cand 10000 = ?cand k"
      unfolding crowded_iff by auto
    then have "str_nat 10000 = str_nat k" by simp
    then have "10000 = k" by (rule str_nat_inj)
    with k show False by simp
  qed
  have first: "?ex ''/bk/j/a.txt''" unfolding ex_iff crowded_iff by simp
  have names: "stem_of (basename ''/bk/j/a.txt'') = ''a''" "suffix_of (basename ''/bk/j/a.txt'') = ''.txt''"
    by (simp_all add: stem_of_def suffix_of_def basename_def)
  have "plan_rename_loop (\<lambda>p. False) ?ex ''a'' ''.txt'' (?cand 1) (Suc 1) = Some (Inr (?cand 10000))"
  proof (rule plan_rename_loop_skip [where cand = ?cand and rf = "\<lambda>p. False" and ex = ?ex
      and m = 10000 and c = 1 and stem = "''a''" and suffix = "''.txt''"])
    show "\<And>k m. renamed (?cand k) ''a'' ''.txt'' m = ?cand m" by (rule crowded_candidate_again)
    show "\<And>k. \<not> (\<lambda>p. False) (?cand k)" by simp
    show "\<not> ?ex (?cand 10000)" by (rule free)
    show "(1::nat) \<le> 10000" by simp
    show "\<And>k. 1 \<le> k \<Longrightarrow> k < 10000 \<Longrightarrow> ?ex (?cand k)" by (rule full)
  qed
  with first have "plan_rename_loop (\<lambda>p. False) ?ex ''a'' ''.txt'' ''/bk/j/a.txt'' 1 =
                   Some (Inr (?cand 10000))"
    by (subst plan_rename_loop.simps) (simp add: crowded_candidate)
  moreover have "path_join (path_join ''/bk'' ''j'') (basename ''/d/a.txt'') = ''/bk/j/a.txt''"
    by (simp add: path_join_def basename_def)
  ultimately have plan: "plan_target quiet_env crowded_job ''/bk'' ''/d/a.txt'' crowded_world =
     Some (Inr ''/bk/j/a_10000.txt'')"
    using first names
    by (simp add: plan_target_def Let_def quiet_env_def crowded_job_def str_nat_10000)
  have "handle_conflict_loop ?ex ''/bk/j/a.txt'' ''a'' ''.txt'' 1 = (''/bk/j/a.txt'', True)"
  proof (rule handle_conflict_loop_fallback)
    fix k :: nat
    assume "1 \<le> k" "k \<le> 9999"
    then have "?ex (?cand k)" by (intro full) simp_all
    then show "?ex (renamed ''/bk/j/a.txt'' ''a'' ''.txt'' k)" by (simp add: crowded_candidate)
  qed simp
  with first names have "handle_conflict ?ex ''/bk/j/a.txt'' ''rename'' = (Some ''/bk/j/a.txt'', True)"
    by (simp add: handle_conflict_def)
  with plan show ?thesis by simp
qed

subsection \<open>Retention (cleanup_old_executions)\<close>

text \<open>What the purge keeps: the executions that share no key with an old one.\<close>

lemma old_executions_iff:
  "x \<in> set (old_executions now d s) \<longleftrightarrow>
     x \<in> set (executions s) \<and> status x \<in> {Completed, Failed, Cancelled} \<and>
     (\<exists>t. completed_at x = Some t \<and> t < cutoff_date now d)"
  by (auto simp: old_executions_def split: option.splits)

lemma cleanup_keeps_iff:
  "e \<in> set (executions (snd (cleanup_old_executions now d s))) \<longleftrightarrow>
     e \<in> set (executions s) \<and> exec_id e \<notin> exec_id ` set (old_executions now d s)"
  by (simp add: cleanup_old_executions_def Let_def)

text \<open>
  Claim C9. The purge with a window of N days deletes an execution with its transfers
  exactly when its status is terminal and its completion time is older than N days. The
  code leaves out the terminal status \<^verbatim>\<open>completed_with_errors\<close>: an execution in that
  status, completed 31 days before the purge, survives a purge with a window of 30 days,
  and so do its transfers.
\<close>

theorem cleanup_keeps_completed_with_errors:
  "terminal (status old_partial) \<and> completed_at old_partial = Some 0 \<and>
   0 < cutoff_date (31 * 86400000000) 30 \<and>
   cleanup_old_executions (31 * 86400000000) 30 old_ledger = (0, old_ledger)"
  by (simp add: terminal_def old_partial_def old_ledger_def cutoff_date_def
      cleanup_old_executions_def old_executions_def)

subsection \<open>The run\<close>

text \<open>The definitions that a run on a sample input unfolds.\<close>

lemmas run_defs =
  quiet_env_def execute_backup_def existing_execution_def new_execution_def
  next_exec_id_def commit_execution_def check_pause_stop_def should_stop_def scan_sources_def
  scan_source_def patterns_of_def should_include_file_def plan_and_transfer_def
  plan_transfers_def plan_target_def plan_item_def path_join_def basename_def update_totals_def
  execute_local_transfer_def completed_before_def temp_target_of_def parent_def
  calculate_checksum_def add_transfer_def complete_job_def emit_completed_def loop_state_def
  completed_paths_of_def handle_pause_or_stop_def get_execution_def backup_failed_def
  error_text_def returned_def transfer_loop.simps str_nat.simps Let_def

subsection \<open>A digest that differs\<close>

lemma basename_temp_target:
  "basename (temp_target_of t) = basename t @ ''.tmp''"
proof -
  let ?b = "basename t @ ''.tmp''"
  have ns: "CHR ''/'' \<notin> set ?b" using basename_no_slash [of t] by simp
  have hd: "\<not> (?b \<noteq> [] \<and> hd ?b = CHR ''/'')"
    using basename_no_slash [of t] by (cases "basename t") auto
  show ?thesis
  proof (cases "parent t = [] \<or> last (parent t) = CHR ''/''")
    case True
    with hd have "temp_target_of t = parent t @ ?b"
      by (simp add: temp_target_of_def path_join_def)
    with basename_append [OF ns True] show ?thesis by simp
  next
    case False
    with hd have "temp_target_of t = (parent t @ ''/'') @ ?b"
      by (simp add: temp_target_of_def path_join_def)
    moreover have "basename ((parent t @ ''/'') @ ?b) = ?b"
      by (rule basename_append [OF ns]) simp
    ultimately show ?thesis by simp
  qed
qed

lemma temp_target_differs: "temp_target_of t \<noteq> t"
proof
  assume "temp_target_of t = t"
  then have "basename (temp_target_of t) = basename t" by simp
  then show False by (simp add: basename_temp_target)
qed

lemma mismatch_transfer:
  assumes fresh: "\<not> completed_before s eid (item_source_path item)"
    and allowed: "\<not> refused ev (item_source_path item)"
    and src: "files s (item_source_path item) = Some content"
    and distinct: "temp_target_of (item_target_path item) \<noteq> item_source_path item"
    and copy: "copy2 ev (item_source_path item) content = Some written"
    and mismatch: "sha256 ev written \<noteq> sha256 ev content"
  shows "execute_local_transfer ev item eid s =
    (False,
     add_transfer
       \<lparr>execution_id = eid, source_path = item_source_path item,
        target_path = item_target_path item, file_size = item_file_size item,
        checksum = None, transfer_status = T_failed, transferred_bytes = 0,
        transfer_error = Some ''Checksum verification failed''\<rparr>
       (s\<lparr>files := (files s)(temp_target_of (item_target_path item) := None)\<rparr>))"
  using assms
  by (auto simp: execute_local_transfer_def Let_def calculate_checksum_def)

text \<open>
  Claim C3, as amended. When the digest of the copy differs from the digest of the source,
  the transfer returns failure and its record ends \<^verbatim>\<open>failed\<close>; the final destination path
  is left as it was (nothing is renamed into place) and the temporary file is removed;
  the loop goes on with the next item, with one more failure counted; and the execution
  never ends \<^verbatim>\<open>completed\<close>: when the run is neither stopped nor paused it ends
  \<^verbatim>\<open>completed_with_errors\<close>.
\<close>

theorem checksum_mismatch_fails:
  assumes running: "status e = Running"
    and enter: "\<not> should_stop ev (observed s)"
    and fresh: "\<not> completed_before s (exec_id e) (item_source_path item)"
    and allowed: "\<not> refused ev (item_source_path item)"
    and src: "files s (item_source_path item) = Some content"
    and distinct: "temp_target_of (item_target_path item) \<noteq> item_source_path item"
    and copy: "copy2 ev (item_source_path item) content = Some written"
    and mismatch: "sha256 ev written \<noteq> sha256 ev content"
  shows "\<exists>s1 e1 e'.
     execute_local_transfer ev item (exec_id e)
       (loop_state i successful failed e item (s\<lparr>observed := Suc (observed s)\<rparr>)) = (False, s1) \<and>
     transfer_status (last (file_transfers s1)) = T_failed \<and>
     source_path (last (file_transfers s1)) = item_source_path item \<and>
     execution_id (last (file_transfers s1)) = exec_id e \<and>
     files s1 (item_target_path item) = files s (item_target_path item) \<and>
     files s1 (temp_target_of (item_target_path item)) = None \<and>
     transfer_loop ev i (item # rest) successful failed e s =
       transfer_loop ev (Suc i) rest successful (Suc failed) e1 (commit_execution e1 s1) \<and>
     failed_files e1 = Suc failed \<and>
     get_execution (final_world (transfer_loop ev i (item # rest) successful failed e s))
       (exec_id e) = Some e' \<and>
     status e' \<noteq> Completed \<and>
     (stop_at ev = None \<and> (\<forall>n. \<not> is_paused_at ev n) \<longrightarrow>
        (\<exists>s'. transfer_loop ev i (item # rest) successful failed e s = Returned s') \<and>
        status e' = Completed_with_errors)"
proof -
  let ?s2 = "loop_state i successful failed e item (s\<lparr>observed := Suc (observed s)\<rparr>)"
  let ?t = "\<lparr>execution_id = exec_id e, source_path = item_source_path item,
        target_path = item_target_path item, file_size = item_file_size item,
        checksum = None, transfer_status = T_failed, transferred_bytes = 0,
        transfer_error = Some ''Checksum verification failed''\<rparr>"
  let ?s1 = "add_transfer ?t (?s2\<lparr>files := (files ?s2)(temp_target_of (item_target_path item) := None)\<rparr>)"
  let ?e1 = "e\<lparr>processed_files := successful + Suc failed, failed_files := Suc failed\<rparr>"
  have f2: "files ?s2 = files s" by (simp add: loop_state_def)
  have nc: "\<not> completed_before ?s2 (exec_id e) (item_source_path item)"
    using fresh by (simp add: completed_before_def loop_state_def)
  have src2: "files ?s2 (item_source_path item) = Some content"
    using src f2 by simp
  have r: "execute_local_transfer ev item (exec_id e) ?s2 = (False, ?s1)"
    by (rule mismatch_transfer [OF nc allowed src2 distinct copy mismatch])
  have loop: "transfer_loop ev i (item # rest) successful failed e s =
       transfer_loop ev (Suc i) rest successful (Suc failed) ?e1 (commit_execution ?e1 ?s1)"
    using enter r by (simp only: transfer_loop_step) simp
  have "get_execution (commit_execution ?e1 ?s1) (exec_id ?e1) = Some ?e1"
    by (rule get_execution_commit_same)
  from transfer_loop_row [OF this, of ev "Suc i" rest successful "Suc failed"] running
  obtain e' where e': "get_execution (final_world (transfer_loop ev (Suc i) rest successful
        (Suc failed) ?e1 (commit_execution ?e1 ?s1))) (exec_id e) = Some e'"
    "status e' \<noteq> Completed"
    "stop_at ev = None \<and> (\<forall>n. \<not> is_paused_at ev n) \<longrightarrow>
       (\<exists>s'. transfer_loop ev (Suc i) rest successful (Suc failed) ?e1
               (commit_execution ?e1 ?s1) = Returned s') \<and>
       status e' = Completed_with_errors"
    by auto
  have t1: "files ?s1 (item_target_path item) = files s (item_target_path item)"
    using temp_target_differs [of "item_target_path item"] f2 by (simp add: add_transfer_def)
  have t2: "files ?s1 (temp_target_of (item_target_path item)) = None"
    by (simp add: add_transfer_def)
  have t3: "last (file_transfers ?s1) = ?t" by (simp add: add_transfer_def)
  show ?thesis
    apply (rule exI [of _ ?s1])
    apply (rule exI [of _ ?e1])
    apply (rule exI [of _ e'])
    using r loop e' t1 t2 t3 by simp
qed

lemmas sample_defs =
  one_job_def one_file_def one_item_def running_execution_def occupied_world_def
  corrupt_env_def skip_job_def skip_world_def file_at_def

theorem checksum_mismatch_fails_witness:
  "status running_execution = Running \<and>
   \<not> should_stop corrupt_env (observed one_file) \<and>
   \<not> completed_before one_file 1 ''/d/a'' \<and>
   \<not> refused corrupt_env ''/d/a'' \<and>
   sha256 corrupt_env ''x!'' \<noteq> sha256 corrupt_env ''x'' \<and>
   map transfer_status
     (file_transfers (final_world (transfer_loop corrupt_env 0 [one_item] 0 0 running_execution one_file))) =
     [T_failed] \<and>
   file_at ''/bk/j/a'' (final_world (transfer_loop corrupt_env 0 [one_item] 0 0 running_execution one_file)) =
     None \<and>
   file_at ''/bk/j/a.tmp'' (final_world (transfer_loop corrupt_env 0 [one_item] 0 0 running_execution one_file)) =
     None \<and>
   map status (executions (final_world (transfer_loop corrupt_env 0 [one_item] 0 0 running_execution one_file))) =
     [Completed_with_errors]"
  using checksum_mismatch_fails [where ev = corrupt_env and s = one_file
      and e = running_execution and item = one_item and content = "''x''" and written = "''x!''"
      and i = 0 and successful = 0 and failed = 0 and rest = "[]"]
  by (simp add: sample_defs run_defs)

text \<open>
  Claim C3 as stated fails where a file is already at the destination path: after the
  failed transfer that file is still there.
\<close>

theorem mismatch_leaves_existing_destination:
  "map_option (map transfer_error \<circ> file_transfers) (returned (execute_backup corrupt_env 1 occupied_world)) =
     Some [Some ''Checksum verification failed''] \<and>
   map_option (map transfer_status \<circ> file_transfers) (returned (execute_backup corrupt_env 1 occupied_world)) =
     Some [T_failed] \<and>
   map_option (file_at ''/bk/j/a'') (returned (execute_backup corrupt_env 1 occupied_world)) =
     Some (Some ''old'')"
  by (simp add: sample_defs run_defs)

subsection \<open>The policy skip\<close>

text \<open>
  Claim C6. Under the policy \<^verbatim>\<open>skip\<close>, a planned item whose destination exists at copy
  time leaves the existing file untouched and is reported as successful. The connector's
  \<^verbatim>\<open>upload_file\<close> does so; the engine's \<^verbatim>\<open>_execute_local_transfer\<close>, which the run calls,
  never looks at the policy: it copies, verifies and renames over the existing file.
\<close>

theorem skip_policy_overwrites:
  "map_option (map item_target_path \<circ> planned) (returned (execute_backup quiet_env 1 skip_world)) =
     Some [''/bk/j/a''] \<and>
   file_at ''/bk/j/a'' skip_world = Some ''old'' \<and>
   map_option (file_at ''/bk/j/a'') (returned (execute_backup quiet_env 1 skip_world)) = Some (Some ''x'') \<and>
   map_option (map transfer_status \<circ> file_transfers) (returned (execute_backup quiet_env 1 skip_world)) =
     Some [T_completed] \<and>
   fst (upload_file quiet_env ''/d/a'' ''/bk/j/a'' ''skip'' skip_world) = (True, Some ''/bk/j/a'') \<and>
   file_at ''/bk/j/a'' (snd (upload_file quiet_env ''/d/a'' ''/bk/j/a'' ''skip'' skip_world)) =
     Some ''old''"
  by (simp add: sample_defs run_defs upload_file_def handle_conflict_def)

subsection \<open>Progress events\<close>

text \<open>
  Claim C7. Each iteration emits one progress event whose first component is the number of
  processed files at that point, and the first components never decrease nor exceed the
  total. The code adds the loop index to counters that already count the iterations: for
  three files the events of the loop carry 0, 2 and 4 with a total of 3, and the closing
  event carries 3.
\<close>

theorem progress_counts_twice:
  "map_option progress_updated (returned (execute_backup quiet_env 1 three_files)) =
     Some [(0, 3, ''Copying a''), (2, 3, ''Copying b''), (4, 3, ''Copying c''),
           (3, 3, ''Backup completed'')] \<and>
   map_option (map processed_files \<circ> executions) (returned (execute_backup quiet_env 1 three_files)) =
     Some [3]"
  by (simp add: three_job_def three_files_def run_defs)

subsection \<open>The scan and the plan before a stop is seen\<close>









lemma plan_target_files_only:
  "files t = files s \<Longrightarrow> plan_target ev job base f t = plan_target ev job base f s"
  unfolding plan_target_def by (erule ssubst) (rule refl)

lemma plan_item_files_only:
  "files t = files s \<Longrightarrow> plan_item ev t f target = plan_item ev s f target"
  by (simp add: plan_item_def)


lemma plan_loop_stopped:
  "should_stop ev (observed s) \<Longrightarrow>
   plan_loop ev job base (f # fs) s = Some (Inr ([], s\<lparr>observed := Suc (observed s)\<rparr>))"
  by (simp add: check_pause_stop_def)

lemma plan_loop_running:
  "\<not> should_stop ev (observed s) \<Longrightarrow>
   plan_loop ev job base (f # fs) s =
     (case plan_target ev job base f s of
        None \<Rightarrow> None
      | Some (Inl err) \<Rightarrow> Some (Inl err)
      | Some (Inr target) \<Rightarrow>
          (case plan_loop ev job base fs (s\<lparr>observed := Suc (observed s)\<rparr>) of
             None \<Rightarrow> None
           | Some (Inl err) \<Rightarrow> Some (Inl err)
           | Some (Inr (items, s2)) \<Rightarrow> Some (Inr (plan_item ev s f target @ items, s2))))"
proof -
  assume a: "\<not> should_stop ev (observed s)"
  have f: "files (s\<lparr>observed := Suc (observed s)\<rparr>) = files s" by simp
  show ?thesis
    using a by (auto simp add: check_pause_stop_def plan_target_files_only [OF f]
        plan_item_files_only [OF f] split: option.splits sum.splits prod.splits)
qed

declare plan_loop.simps(2) [simp del]


lemma plan_loop_frame:
  "plan_loop ev job base fs s = Some (Inr (items, s')) \<Longrightarrow> \<exists>n. s' = s\<lparr>observed := n\<rparr>"
proof (induction fs arbitrary: s items s')
  case Nil
  have "s = s\<lparr>observed := observed s\<rparr>" by simp
  with Nil show ?case by (simp add: exI [of _ "observed s"])
next
  case (Cons f fs)
  let ?s1 = "s\<lparr>observed := Suc (observed s)\<rparr>"
  show ?case
  proof (cases "should_stop ev (observed s)")
    case True
    with Cons.prems have "s' = ?s1" by (simp add: plan_loop_stopped)
    then show ?thesis ..
  next
    case False
    with Cons.prems obtain items2 where "plan_loop ev job base fs ?s1 = Some (Inr (items2, s'))"
      by (auto simp: plan_loop_running split: option.splits sum.splits)
    from Cons.IH [OF this] obtain n where "s' = ?s1\<lparr>observed := n\<rparr>" ..
    then have "s' = s\<lparr>observed := n\<rparr>" by simp
    then show ?thesis ..
  qed
qed



lemma plan_transfers_frame:
  "plan_transfers ev job fs s = Some (Inr (items, s')) \<Longrightarrow> \<exists>n. s' = s\<lparr>observed := n\<rparr>"
proof -
  assume a: "plan_transfers ev job fs s = Some (Inr (items, s'))"
  have "s = s\<lparr>observed := observed s\<rparr>" by simp
  then have triv: "\<exists>n. s = s\<lparr>observed := n\<rparr>" by (rule exI)
  show ?thesis
  proof (cases "target_type job = ''local''")
    case True
    with a obtain base where "plan_loop ev job base fs s = Some (Inr (items, s'))"
      by (auto simp: plan_transfers_def split: option.splits)
    then show ?thesis by (rule plan_loop_frame)
  next
    case False
    with a have "s' = s" by (simp add: plan_transfers_def)
    with triv show ?thesis by simp
  qed
qed


subsection \<open>The shape of a run\<close>












end
